theory Spec2Isabelle
  imports Main "HOL-Library.List_Lexorder" "HOL-Library.Char_ord" "HOL-Library.Multiset"
begin

section \<open>Text and byte strings\<close>

text \<open>
  Python \<open>str\<close> values and byte strings are both modelled as \<open>char list\<close>: a character is
  a code point below 256, a byte is a byte. SQLite compares TEXT values with the BINARY
  collation (\<open>memcmp\<close>), which is the lexicographic order on \<open>char list\<close>.
\<close>

type_synonym bytes = "char list"

definition isspace :: "char \<Rightarrow> bool" where
  \<comment> \<open>\<open>str.isspace\<close>, which is also what \<open>\s\<close> matches in a \<open>str\<close> pattern.\<close>
  "isspace c = (of_char c \<in> set [9, 10, 11, 12, 13, 28, 29, 30, 31, 32, 133, 160 :: nat])"

definition strip :: "string \<Rightarrow> string" where
  "strip s = rev (dropWhile isspace (rev (dropWhile isspace s)))"

fun re_split_ws :: "string \<Rightarrow> string list" where
  \<comment> \<open>\<open>re.split(r'\s+', s)\<close>: the pieces between maximal runs of whitespace; never empty.\<close>
  "re_split_ws [] = [[]]"
| "re_split_ws (c # cs) =
     (if isspace c then
        (case cs of
           [] \<Rightarrow> [[], []]
         | c' # _ \<Rightarrow> if isspace c' then re_split_ws cs else [] # re_split_ws cs)
      else (case re_split_ws cs of
              [] \<Rightarrow> [[c]]
            | t # ts \<Rightarrow> (c # t) # ts))"

definition startswith :: "string \<Rightarrow> string \<Rightarrow> bool" where
  "startswith s p = (take (length p) s = p)"

fun split_on :: "char \<Rightarrow> string \<Rightarrow> string list" where
  \<comment> \<open>\<open>s.split(sep)\<close> for a one-character separator.\<close>
  "split_on sep [] = [[]]"
| "split_on sep (c # cs) =
     (if c = sep then [] # split_on sep cs
      else (case split_on sep cs of
              [] \<Rightarrow> [[c]]
            | t # ts \<Rightarrow> (c # t) # ts))"

fun join_with :: "string \<Rightarrow> string list \<Rightarrow> string" where
  \<comment> \<open>\<open>sep.join(xs)\<close>.\<close>
  "join_with sep [] = []"
| "join_with sep [x] = x"
| "join_with sep (x # y # ys) = x @ sep @ join_with sep (y # ys)"

section \<open>The stored tables\<close>

record document =
  document_id :: string
  title :: string
  notes_col :: string
  created_at :: string
  archived :: bool

record file_row =
  file_id :: nat
  file_document_id :: string
  filename :: string
  filesize :: nat
  mimetype :: string
  sha256 :: string
  local_path :: string

record tag_row =
  tag_document_id :: string
  tag :: string

text \<open>
  The state the program works on: the three tables of \<open>documents.db\<close>, each in insertion
  order, and the files below \<open>document_storage\<close> as a map from path to content.
\<close>

record store =
  Documents :: "document list"
  Files :: "file_row list"
  Tags :: "tag_row list"
  disk :: "string \<rightharpoonup> bytes"

datatype error =
    IntegrityError      \<comment> \<open>\<open>sqlite3.IntegrityError\<close>: a primary key is already present\<close>
  | OperationalError    \<comment> \<open>\<open>sqlite3.OperationalError\<close>: the statement does not parse\<close>
  | ProgrammingError    \<comment> \<open>\<open>sqlite3.ProgrammingError\<close>: wrong number of bindings\<close>
  | OSError             \<comment> \<open>\<open>open(local_path, "wb")\<close> failed\<close>

section \<open>The query compiler\<close>

text \<open>
  \<open>parse_search_query\<close> builds the text of a SELECT statement and the list of its
  parameters. The statement is modelled by the sequence of fragments that the function
  appends after \<open>WHERE\<close>; every other part of the text is the same for all queries.
  The fragments are:
  \<^item> \<open>True_1eq1\<close>: \<open>1=1\<close>;
  \<^item> \<open>Tag_In n\<close>: \<open>d.document_id IN (SELECT document_id FROM Tags WHERE tag = ? OR ... )\<close>
    with \<open>n\<close> placeholders;
  \<^item> \<open>Year_Eq n\<close>: \<open>(strftime('%Y', d.created_at) = ? OR ... )\<close> with \<open>n\<close> placeholders;
  \<^item> \<open>Mime_In n\<close>: \<open>d.document_id IN (SELECT document_id FROM Files WHERE mimetype LIKE ? OR ... )\<close>
    with \<open>n\<close> placeholders;
  \<^item> \<open>Exclude\<close>: \<open>(d.title NOT LIKE ? AND d.notes NOT LIKE ?)\<close>;
  \<^item> \<open>Literal\<close>: \<open>(d.title LIKE ? OR d.notes LIKE ?)\<close>;
  \<^item> \<open>Kw_AND\<close>, \<open>Kw_OR\<close>: the keywords \<open>AND\<close> and \<open>OR\<close> between fragments.
\<close>

datatype sql_atom = True_1eq1 | Tag_In nat | Year_Eq nat | Mime_In nat | Exclude | Literal

datatype sql_token = Atom sql_atom | Kw_AND | Kw_OR

record parse_state =
  conditions :: "sql_token list"
  params :: "string list"
  tags :: "string list"
  years :: "string list"
  mimes :: "string list"
  excludes :: "string list"

definition percent :: "string \<Rightarrow> string" where
  \<comment> \<open>\<open>f"%{x}%"\<close>\<close>
  "percent x = ''%'' @ x @ ''%''"

definition classify :: "parse_state \<Rightarrow> string \<Rightarrow> parse_state" where
  \<comment> \<open>The body of the \<open>while\<close> loop, for one token.\<close>
  "classify st token =
     (if startswith token ''tag:'' then st\<lparr>tags := tags st @ [drop 4 token]\<rparr>
      else if startswith token ''year:'' then st\<lparr>years := years st @ [drop 5 token]\<rparr>
      else if startswith token ''mime:'' then st\<lparr>mimes := mimes st @ [drop 5 token]\<rparr>
      else if startswith token ''-'' then st\<lparr>excludes := excludes st @ [drop 1 token]\<rparr>
      else if token = ''AND'' then st\<lparr>conditions := conditions st @ [Kw_AND]\<rparr>
      else if token = ''OR'' then st\<lparr>conditions := conditions st @ [Kw_OR]\<rparr>
      else st\<lparr>conditions := conditions st @ [Atom Literal],
              params := params st @ [percent token, percent token]\<rparr>)"

definition init_state :: parse_state where
  "init_state = \<lparr>conditions = [], params = [], tags = [], years = [], mimes = [], excludes = []\<rparr>"

definition tokenize :: "string \<Rightarrow> string list" where
  \<comment> \<open>\<open>re.split(r'\s+', query.strip())\<close>\<close>
  "tokenize query = re_split_ws (strip query)"

definition compile_state :: "parse_state \<Rightarrow> sql_token list \<times> string list" where
  \<comment> \<open>The part of \<open>parse_search_query\<close> after the loop.\<close>
  "compile_state st =
     (let sql = [Atom True_1eq1];
          ps = params st;
          (sql, ps) = (if tags st \<noteq> []
                       then (sql @ [Kw_AND, Atom (Tag_In (length (tags st)))], ps @ tags st)
                       else (sql, ps));
          (sql, ps) = (if years st \<noteq> []
                       then (sql @ [Kw_AND, Atom (Year_Eq (length (years st)))], ps @ years st)
                       else (sql, ps));
          (sql, ps) = (if mimes st \<noteq> []
                       then (sql @ [Kw_AND, Atom (Mime_In (length (mimes st)))],
                             ps @ map percent (mimes st))
                       else (sql, ps));
          (sql, ps) = (if excludes st \<noteq> []
                       then (sql @ [Kw_AND, Atom Exclude],
                             ps @ map percent (excludes st) @ map percent (excludes st))
                       else (sql, ps));
          sql = (if conditions st \<noteq> [] then sql @ Kw_AND # conditions st else sql)
      in (sql, ps))"

definition parse_search_query :: "string \<Rightarrow> sql_token list \<times> string list" where
  "parse_search_query query = compile_state (foldl classify init_state (tokenize query))"

section \<open>Running the statement\<close>

text \<open>
  The relational engine is outside the repository. The model below is the part of
  SQLite's documented behaviour that the statement depends on.

  \<open>LIKE\<close>: \<open>%\<close> matches any run of characters, \<open>_\<close> any one character, and letters
  of the ASCII range are compared without regard to case.
\<close>

definition ascii_lower :: "char \<Rightarrow> char" where
  "ascii_lower c =
     (let n = (of_char c :: nat) in if 65 \<le> n \<and> n \<le> 90 then char_of (n + 32) else c)"

fun like :: "string \<Rightarrow> string \<Rightarrow> bool" where
  \<comment> \<open>\<open>like pattern text\<close> is \<open>text LIKE pattern\<close>.\<close>
  "like [] [] = True"
| "like [] (c # cs) = False"
| "like (p # ps) [] = (p = CHR ''%'' \<and> like ps [])"
| "like (p # ps) (c # cs) =
     (if p = CHR ''%'' then like ps (c # cs) \<or> like (p # ps) cs
      else (p = CHR ''_'' \<or> ascii_lower p = ascii_lower c) \<and> like ps cs)"

fun arity :: "sql_atom \<Rightarrow> nat" where
  \<comment> \<open>The number of \<open>?\<close> placeholders in a fragment.\<close>
  "arity True_1eq1 = 0"
| "arity (Tag_In n) = n"
| "arity (Year_Eq n) = n"
| "arity (Mime_In n) = n"
| "arity Exclude = 2"
| "arity Literal = 2"

fun placeholders :: "sql_token list \<Rightarrow> nat" where
  "placeholders [] = 0"
| "placeholders (Atom a # ts) = arity a + placeholders ts"
| "placeholders (Kw_AND # ts) = placeholders ts"
| "placeholders (Kw_OR # ts) = placeholders ts"

fun sql_syntax_ok :: "sql_token list \<Rightarrow> bool" where
  \<comment> \<open>An expression is a sequence of operands with one \<open>AND\<close> or \<open>OR\<close> between neighbours.\<close>
  "sql_syntax_ok [Atom a] = True"
| "sql_syntax_ok (Atom a # Kw_AND # ts) = sql_syntax_ok ts"
| "sql_syntax_ok (Atom a # Kw_OR # ts) = sql_syntax_ok ts"
| "sql_syntax_ok _ = False"

text \<open>
  The value of one fragment for the row \<open>d\<close> of \<open>Documents\<close>, with the parameters bound to
  its placeholders. \<open>strftime_Y\<close> is the engine's \<open>strftime('%Y', _)\<close>, \<open>None\<close> for NULL; a
  comparison with NULL is not true. The columns \<open>title\<close>, \<open>notes\<close> and \<open>mimetype\<close> hold the
  \<open>str\<close> values that \<open>add_document\<close> inserted, never NULL.
\<close>

fun eval_atom :: "(string \<Rightarrow> string option) \<Rightarrow> store \<Rightarrow> document \<Rightarrow> sql_atom \<Rightarrow> string list \<Rightarrow> bool" where
  "eval_atom strftime_Y db d True_1eq1 ps = True"
| "eval_atom strftime_Y db d (Tag_In n) ps =
     list_ex (\<lambda>t. tag_document_id t = document_id d \<and> list_ex (\<lambda>p. tag t = p) ps) (Tags db)"
| "eval_atom strftime_Y db d (Year_Eq n) ps =
     list_ex (\<lambda>p. strftime_Y (created_at d) = Some p) ps"
| "eval_atom strftime_Y db d (Mime_In n) ps =
     list_ex (\<lambda>f. file_document_id f = document_id d \<and> list_ex (\<lambda>p. like p (mimetype f)) ps)
       (Files db)"
| "eval_atom strftime_Y db d Exclude ps =
     (case ps of [p1, p2] \<Rightarrow> \<not> like p1 (title d) \<and> \<not> like p2 (notes_col d) | _ \<Rightarrow> False)"
| "eval_atom strftime_Y db d Literal ps =
     (case ps of [p1, p2] \<Rightarrow> like p1 (title d) \<or> like p2 (notes_col d) | _ \<Rightarrow> False)"

text \<open>
  The WHERE expression: placeholders take the parameters from left to right, and \<open>AND\<close>
  binds tighter than \<open>OR\<close>. \<open>cur\<close> is the value of the conjunction being read.
\<close>

fun eval_where :: "(string \<Rightarrow> string option) \<Rightarrow> store \<Rightarrow> document \<Rightarrow> sql_token list \<Rightarrow> string list \<Rightarrow> bool \<Rightarrow> bool" where
  "eval_where strftime_Y db d [] ps cur = cur"
| "eval_where strftime_Y db d (Atom a # ts) ps cur =
     eval_where strftime_Y db d ts (drop (arity a) ps)
       (cur \<and> eval_atom strftime_Y db d a (take (arity a) ps))"
| "eval_where strftime_Y db d (Kw_AND # ts) ps cur = eval_where strftime_Y db d ts ps cur"
| "eval_where strftime_Y db d (Kw_OR # ts) ps cur =
     (cur \<or> eval_where strftime_Y db d ts ps True)"

text \<open>
  \<open>GROUP BY d.document_id\<close> gives one result row per row of \<open>Documents\<close>, whose
  primary key is \<open>document_id\<close>: the columns of \<open>Documents\<close> and the three \<open>group_concat\<close>
  aggregates over the rows that the two LEFT JOINs produce for the document. The engine
  fixes no order of concatenation; the model takes the Tags rows in the outer loop and the
  Files rows in the inner loop, each in table order.
\<close>

record result_row =
  r_document_id :: string
  r_title :: string
  r_notes :: string
  r_created_at :: string
  r_archived :: bool
  r_tags :: "string option"
  r_files :: "string option"
  r_local_paths :: "string option"

definition left_join :: "'a list \<Rightarrow> 'a option list" where
  "left_join xs = (if xs = [] then [None] else map Some xs)"

definition joined :: "store \<Rightarrow> document \<Rightarrow> (tag_row option \<times> file_row option) list" where
  "joined db d =
     List.product
       (left_join (filter (\<lambda>t. tag_document_id t = document_id d) (Tags db)))
       (left_join (filter (\<lambda>f. file_document_id f = document_id d) (Files db)))"

definition group_concat :: "string option list \<Rightarrow> string option" where
  \<comment> \<open>NULLs are skipped; the result is NULL when nothing is left.\<close>
  "group_concat xs =
     (case List.map_filter id xs of [] \<Rightarrow> None | ys \<Rightarrow> Some (join_with '','' ys))"

definition select_row :: "store \<Rightarrow> document \<Rightarrow> result_row" where
  "select_row db d =
     \<lparr>r_document_id = document_id d, r_title = title d, r_notes = notes_col d,
      r_created_at = created_at d, r_archived = archived d,
      r_tags = group_concat (map (\<lambda>(t, f). map_option tag t) (joined db d)),
      r_files = group_concat (map (\<lambda>(t, f). map_option filename f) (joined db d)),
      r_local_paths = group_concat (map (\<lambda>(t, f). map_option local_path f) (joined db d))\<rparr>"

text \<open>
  \<open>ORDER BY d.created_at DESC\<close>. The engine fixes no order among rows with equal
  \<open>created_at\<close>; the model puts the row inserted later first. Limits of the engine (the
  length of a statement or of a LIKE pattern) are outside the model.
\<close>

definition order_by_created_at_desc :: "document list \<Rightarrow> document list" where
  "order_by_created_at_desc ds = rev (sort_key created_at ds)"

definition execute :: "(string \<Rightarrow> string option) \<Rightarrow> store \<Rightarrow> sql_token list \<Rightarrow> string list \<Rightarrow> error + result_row list" where
  \<comment> \<open>\<open>cursor.execute(sql, params)\<close> and \<open>fetchall\<close>: the statement is prepared first, then
      the number of bindings is checked.\<close>
  "execute strftime_Y db sql ps =
     (if \<not> sql_syntax_ok sql then Inl OperationalError
      else if placeholders sql \<noteq> length ps then Inl ProgrammingError
      else Inr (map (select_row db)
                  (order_by_created_at_desc
                     (filter (\<lambda>d. eval_where strftime_Y db d sql ps True) (Documents db)))))"

definition search_documents :: "(string \<Rightarrow> string option) \<Rightarrow> store \<Rightarrow> string \<Rightarrow> error + result_row list" where
  "search_documents strftime_Y db query =
     (case parse_search_query query of (sql, ps) \<Rightarrow> execute strftime_Y db sql ps)"

section \<open>Archiving\<close>

definition toggle_archive :: "string \<Rightarrow> bool \<Rightarrow> store \<Rightarrow> store" where
  \<comment> \<open>\<open>UPDATE Documents SET archived = ? WHERE document_id = ?\<close>; the function has no
      raising path, so it returns the new state.\<close>
  "toggle_archive doc_id archive db =
     db\<lparr>Documents :=
          map (\<lambda>d. if document_id d = doc_id then d\<lparr>archived := archive\<rparr> else d)
            (Documents db)\<rparr>"

definition visible_results :: "bool \<Rightarrow> result_row list \<Rightarrow> result_row list" where
  \<comment> \<open>The Documents page: \<open>if not show_archived: results = [r for r in results if not r["archived"]]\<close>\<close>
  "visible_results show_archived results =
     (if \<not> show_archived then filter (\<lambda>r. \<not> r_archived r) results else results)"

section \<open>Ingestion\<close>

text \<open>
  An uploaded file is a stream: a name, the bytes, and the read position.
\<close>

record upload =
  name :: string
  content :: bytes
  pos :: nat

definition read :: "nat \<Rightarrow> upload \<Rightarrow> bytes \<times> upload" where
  \<comment> \<open>\<open>file.read(n)\<close>\<close>
  "read n f =
     (let chunk = take n (drop (pos f) (content f))
      in (chunk, f\<lparr>pos := pos f + length chunk\<rparr>))"

definition read_all :: "upload \<Rightarrow> bytes \<times> upload" where
  \<comment> \<open>\<open>file.read()\<close>\<close>
  "read_all f =
     (let chunk = drop (pos f) (content f)
      in (chunk, f\<lparr>pos := pos f + length chunk\<rparr>))"

definition seek0 :: "upload \<Rightarrow> upload" where
  \<comment> \<open>\<open>file.seek(0)\<close>\<close>
  "seek0 f = f\<lparr>pos := 0\<rparr>"

text \<open>
  The libraries that ingestion calls are parameters: \<open>hashlib.md5(_).hexdigest()\<close>,
  \<open>hashlib.sha256\<close> (a hash object is the bytes fed to it so far, since feeding chunks
  one after the other is the same as feeding their concatenation, and
  \<open>sha256_hexdigest\<close> is the digest of those bytes), \<open>magic.from_buffer\<close>, and whether
  \<open>open(path, "wb")\<close> succeeds.
\<close>

record env =
  md5_hexdigest :: "string \<Rightarrow> string"
  sha256_hexdigest :: "bytes \<Rightarrow> string"
  from_buffer :: "bytes \<Rightarrow> string"
  can_open :: "string \<Rightarrow> bool"

function read_chunks :: "upload \<Rightarrow> bytes \<Rightarrow> bytes \<times> upload" where
  \<comment> \<open>\<open>for chunk in iter(lambda: file.read(4096), b""): sha256.update(chunk)\<close>\<close>
  "read_chunks f fed =
     (case read 4096 f of
        (chunk, f') \<Rightarrow> if chunk = [] then (fed, f') else read_chunks f' (fed @ chunk))"
  by pat_completeness auto
termination
  by (relation "measure (\<lambda>(f, fed). length (content f) - pos f)")
     (auto simp: read_def Let_def)

declare read_chunks.simps [simp del]

definition compute_sha256 :: "env \<Rightarrow> upload \<Rightarrow> string \<times> upload" where
  "compute_sha256 e f =
     (case read_chunks f [] of (fed, f') \<Rightarrow> (sha256_hexdigest e fed, seek0 f'))"

definition STORAGE_PATH :: string where
  "STORAGE_PATH = ''document_storage''"

definition os_path_join :: "string \<Rightarrow> string \<Rightarrow> string" where
  \<comment> \<open>\<open>os.path.join\<close> of two components, on POSIX.\<close>
  "os_path_join a b =
     (if startswith b ''/'' then b
      else if a = [] \<or> last a = CHR ''/'' then a @ b
      else a @ ''/'' @ b)"

definition storage_path :: "string \<Rightarrow> string \<Rightarrow> string" where
  \<comment> \<open>\<open>os.path.join(STORAGE_PATH, f"{document_id}_{filename}")\<close>\<close>
  "storage_path doc_id fname = os_path_join STORAGE_PATH (doc_id @ ''_'' @ fname)"

definition next_file_id :: "store \<Rightarrow> nat" where
  \<comment> \<open>\<open>INTEGER PRIMARY KEY AUTOINCREMENT\<close>; no row of \<open>Files\<close> is ever deleted.\<close>
  "next_file_id db = Suc (fold max (map file_id (Files db)) 0)"

definition store_file :: "env \<Rightarrow> string \<Rightarrow> store \<Rightarrow> upload \<Rightarrow> (error + unit) \<times> store" where
  \<comment> \<open>The body of \<open>for file in files\<close>.\<close>
  "store_file e doc_id db file =
     (let fname = name file;
          (digest, file) = compute_sha256 e file;
          (data, file) = read_all file;
          fsize = length data;
          file = seek0 file;
          (head, file) = read 1024 file;
          mtype = from_buffer e head;
          file = seek0 file;
          path = storage_path doc_id fname
      in if \<not> can_open e path then (Inl OSError, db)
         else
           (let (data, file) = read_all file;
                db = db\<lparr>disk := (disk db)(path \<mapsto> data)\<rparr>
            in (Inr (),
                db\<lparr>Files := Files db @
                       [\<lparr>file_id = next_file_id db, file_document_id = doc_id,
                         filename = fname, filesize = fsize, mimetype = mtype,
                         sha256 = digest, local_path = path\<rparr>]\<rparr>)))"

fun store_files :: "env \<Rightarrow> string \<Rightarrow> store \<Rightarrow> upload list \<Rightarrow> (error + unit) \<times> store" where
  "store_files e doc_id db [] = (Inr (), db)"
| "store_files e doc_id db (file # files) =
     (case store_file e doc_id db file of
        (Inl err, db') \<Rightarrow> (Inl err, db')
      | (Inr u, db') \<Rightarrow> store_files e doc_id db' files)"

definition insert_tag :: "string \<Rightarrow> store \<Rightarrow> string \<Rightarrow> store" where
  \<comment> \<open>\<open>if tag: INSERT OR IGNORE INTO Tags\<close>, with the primary key \<open>(document_id, tag)\<close>.\<close>
  "insert_tag doc_id db t =
     (if t = [] then db
      else if list_ex (\<lambda>r. tag_document_id r = doc_id \<and> tag r = t) (Tags db) then db
      else db\<lparr>Tags := Tags db @ [\<lparr>tag_document_id = doc_id, tag = t\<rparr>]\<rparr>)"

text \<open>
  \<open>now1\<close> and \<open>now2\<close> are the texts of the two \<open>datetime.now()\<close> readings. When a
  statement or a write raises, the function ends before \<open>conn.commit()\<close>: the tables keep
  their old rows, and the files written so far stay on disk.
\<close>

definition add_document :: "env \<Rightarrow> string \<Rightarrow> string \<Rightarrow> string \<Rightarrow> string \<Rightarrow> string \<Rightarrow> upload list \<Rightarrow> store \<Rightarrow> (error + string) \<times> store" where
  "add_document e now1 now2 ttl nts tgs files db =
     (let doc_id = md5_hexdigest e (ttl @ now1);
          created = now2;
          tag_list = (if tgs \<noteq> [] then map strip (split_on CHR '','' tgs) else [])
      in if list_ex (\<lambda>d. document_id d = doc_id) (Documents db) then (Inl IntegrityError, db)
         else
           (let db1 = db\<lparr>Documents := Documents db @
                         [\<lparr>document_id = doc_id, title = ttl, notes_col = nts,
                           created_at = created, archived = False\<rparr>]\<rparr>
            in case store_files e doc_id db1 files of
                 (Inl err, db2) \<Rightarrow> (Inl err, db\<lparr>disk := disk db2\<rparr>)
               | (Inr u, db2) \<Rightarrow> (Inr doc_id, foldl (insert_tag doc_id) db2 tag_list)))"

definition add_form :: "env \<Rightarrow> string \<Rightarrow> string \<Rightarrow> bool \<Rightarrow> string \<Rightarrow> string \<Rightarrow> string \<Rightarrow> upload list \<Rightarrow> store \<Rightarrow> (error + string) option \<times> store" where
  \<comment> \<open>The form of the Add Document page: \<open>if submit and title and files: add_document(...)\<close>.
      \<open>None\<close>: \<open>add_document\<close> was not called.\<close>
  "add_form e now1 now2 submit ttl nts tgs files db =
     (if submit \<and> ttl \<noteq> [] \<and> files \<noteq> []
      then (case add_document e now1 now2 ttl nts tgs files db of (r, db') \<Rightarrow> (Some r, db'))
      else (None, db))"

section \<open>Invariants and examples\<close>

definition primary_key_ok :: "store \<Rightarrow> bool" where
  \<comment> \<open>\<open>document_id TEXT PRIMARY KEY\<close>\<close>
  "primary_key_ok db = distinct (map document_id (Documents db))"

definition is_hexdigest :: "string \<Rightarrow> bool" where
  \<comment> \<open>The form of \<open>hashlib.md5(_).hexdigest()\<close>: 32 lower-case hexadecimal digits.\<close>
  "is_hexdigest s = (length s = 32 \<and> list_all (\<lambda>c. c \<in> set ''0123456789abcdef'') s)"

definition set_flag :: "string \<Rightarrow> bool \<Rightarrow> document \<Rightarrow> document" where
  \<comment> \<open>What the UPDATE of \<open>toggle_archive\<close> does to one row.\<close>
  "set_flag doc_id flag d = (if document_id d = doc_id then d\<lparr>archived := flag\<rparr> else d)"

definition doc_a :: document where
  "doc_a = \<lparr>document_id = ''a1'', title = ''draft'', notes_col = '''',
            created_at = ''2023-01-01 10:00:00'', archived = False\<rparr>"

definition doc_b :: document where
  "doc_b = \<lparr>document_id = ''b2'', title = ''Report'', notes_col = ''final'',
            created_at = ''2024-06-01 09:30:00'', archived = True\<rparr>"

definition doc_c :: document where
  "doc_c = \<lparr>document_id = ''c3'', title = ''Misc'', notes_col = ''n'',
            created_at = ''2022-03-05 08:00:00'', archived = False\<rparr>"

definition example_db :: store where
  "example_db =
     \<lparr>Documents = [doc_a, doc_b, doc_c], Files = [],
      Tags = [\<lparr>tag_document_id = ''a1'', tag = ''work''\<rparr>,
              \<lparr>tag_document_id = ''b2'', tag = ''personal''\<rparr>],
      disk = Map.empty\<rparr>"

definition year_prefix :: "string \<Rightarrow> string option" where
  \<comment> \<open>\<open>strftime('%Y', _)\<close> on the timestamps of the examples.\<close>
  "year_prefix s = Some (take 4 s)"

definition example_env :: env where
  "example_env =
     \<lparr>md5_hexdigest = (\<lambda>s. ''d41d8cd98f00b204e9800998ecf8427e''),
      sha256_hexdigest = (\<lambda>b. ''digest of '' @ b),
      from_buffer = (\<lambda>b. ''text/plain''),
      can_open = (\<lambda>p. True)\<rparr>"

definition empty_db :: store where
  "empty_db = \<lparr>Documents = [], Files = [], Tags = [], disk = Map.empty\<rparr>"

definition up1 :: upload where
  "up1 = \<lparr>name = ''a.txt'', content = ''hello'', pos = 0\<rparr>"







text \<open>
  The kinds of token that become a filter: \<open>tag:\<close>, \<open>year:\<close> and \<open>mime:\<close> tokens are
  combined with OR within their kind; a token that starts with \<open>-\<close> is an exclusion.
  \<open>outcome\<close> is what the statement compiled from such tokens evaluates to.
\<close>

definition is_or_token :: "string \<Rightarrow> bool" where
  "is_or_token t = (startswith t ''tag:'' \<or> startswith t ''year:'' \<or> startswith t ''mime:'')"

definition is_filter_token :: "string \<Rightarrow> bool" where
  "is_filter_token t = (is_or_token t \<or> startswith t ''-'')"

definition tag_vals :: "string list \<Rightarrow> string list" where
  "tag_vals ts = map (drop 4) (filter (\<lambda>u. startswith u ''tag:'') ts)"

definition year_vals :: "string list \<Rightarrow> string list" where
  "year_vals ts = map (drop 5) (filter (\<lambda>u. startswith u ''year:'') ts)"

definition mime_vals :: "string list \<Rightarrow> string list" where
  "mime_vals ts = map (drop 5) (filter (\<lambda>u. startswith u ''mime:'') ts)"

definition excl_vals :: "string list \<Rightarrow> string list" where
  "excl_vals ts = map (drop 1) (filter (\<lambda>u. startswith u ''-'') ts)"

definition matches :: "(string \<Rightarrow> string option) \<Rightarrow> store \<Rightarrow> document \<Rightarrow> string list \<Rightarrow> string list \<Rightarrow> string list \<Rightarrow> string list \<Rightarrow> bool" where
  "matches sy db d T Y M E =
     ((T = [] \<or> eval_atom sy db d (Tag_In (length T)) T)
    \<and> (Y = [] \<or> eval_atom sy db d (Year_Eq (length Y)) Y)
    \<and> (M = [] \<or> eval_atom sy db d (Mime_In (length M)) (map percent M))
    \<and> (E = [] \<or> eval_atom sy db d Exclude (map percent E @ map percent E)))"

definition outcome :: "(string \<Rightarrow> string option) \<Rightarrow> store \<Rightarrow> string list \<Rightarrow> string list \<Rightarrow> string list \<Rightarrow> string list \<Rightarrow> error + result_row list" where
  "outcome sy db T Y M E =
     (if 2 \<le> length E then Inl ProgrammingError
      else Inr (map (select_row db)
                  (order_by_created_at_desc (filter (\<lambda>d. matches sy db d T Y M E) (Documents db)))))"

section \<open>Helper lemmas\<close>

lemma toggle_map_erase:
  "map (\<lambda>d. d\<lparr>archived := a\<rparr>)
     (map (\<lambda>d. if document_id d = doc_id then d\<lparr>archived := flag\<rparr> else d) ds)
   = map (\<lambda>d. d\<lparr>archived := a\<rparr>) ds"
  by (induction ds) auto

lemma toggle_there_and_back:
  assumes "\<forall>x\<in>set ds. document_id x = doc_id \<longrightarrow> archived x = a"
  shows "map (\<lambda>d. if document_id d = doc_id then d\<lparr>archived := a\<rparr> else d)
          (map (\<lambda>d. if document_id d = doc_id then d\<lparr>archived := b\<rparr> else d) ds) = ds"
  using assms by (induction ds) auto

lemma distinct_same_id:
  "distinct (map document_id ds) \<Longrightarrow> d \<in> set ds \<Longrightarrow> x \<in> set ds \<Longrightarrow>
   document_id x = document_id d \<Longrightarrow> x = d"
  by (meson distinct_map inj_on_def)

lemma storage_path_eq:
  "d \<noteq> [] \<Longrightarrow> hd d \<noteq> CHR ''/'' \<Longrightarrow> storage_path d f = ''document_storage/'' @ d @ ''_'' @ f"
  by (cases d) (simp_all add: storage_path_def os_path_join_def STORAGE_PATH_def startswith_def)

lemma hexdigest_head: "is_hexdigest d \<Longrightarrow> d \<noteq> [] \<and> hd d \<noteq> CHR ''/''"
  by (cases d) (auto simp: is_hexdigest_def)

lemma tokenize_empty: "tokenize '''' = [[]]"
  by (simp add: tokenize_def strip_def)

lemma parse_empty:
  "parse_search_query '''' = ([Atom True_1eq1, Kw_AND, Atom Literal], [''%%'', ''%%''])"
  by (simp add: parse_search_query_def tokenize_empty classify_def init_state_def startswith_def
      compile_state_def percent_def)

lemma like_percent: "like ''%'' s"
  by (induction s) auto

lemma like_percent_percent: "like ''%%'' s"
proof (induction s)
  case Nil
  show ?case by simp
next
  case (Cons c cs)
  have "like ''%'' (c # cs)" by (rule like_percent)
  then show ?case by simp
qed

lemma sorted_desc:
  "sorted_wrt (\<lambda>a b. created_at b \<le> created_at a) (order_by_created_at_desc ds)"
proof -
  have "sorted (map created_at (sort_key created_at ds))" by (rule sorted_sort_key)
  then have "sorted_wrt (\<lambda>a b. created_at a \<le> created_at b) (sort_key created_at ds)"
    by (simp add: sorted_map)
  then show ?thesis
    unfolding order_by_created_at_desc_def by (simp add: sorted_wrt_rev)
qed

lemma mset_order: "mset (order_by_created_at_desc ds) = mset ds"
  by (simp add: order_by_created_at_desc_def mset_rev)

lemma classify_tag: "classify st (''tag:'' @ v) = st\<lparr>tags := tags st @ [v]\<rparr>"
  by (simp add: classify_def startswith_def)

lemma foldl_classify_tags:
  "foldl classify st (map (\<lambda>v. ''tag:'' @ v) vs) = st\<lparr>tags := tags st @ vs\<rparr>"
proof (induction vs arbitrary: st)
  case Nil
  show ?case by simp
next
  case (Cons v vs)
  show ?case by (simp add: Cons.IH classify_tag del: append.simps)
qed

lemma parse_tags_only:
  assumes "tokenize query = map (\<lambda>v. ''tag:'' @ v) vs" and "vs \<noteq> []"
  shows "parse_search_query query = ([Atom True_1eq1, Kw_AND, Atom (Tag_In (length vs))], vs)"
proof -
  have "foldl classify init_state (tokenize query) = init_state\<lparr>tags := vs\<rparr>"
    by (simp only: assms(1) foldl_classify_tags) (simp add: init_state_def)
  then show ?thesis
    using assms(2) by (simp add: parse_search_query_def init_state_def compile_state_def)
qed

lemma eval_atom_toggle:
  "eval_atom sy (toggle_archive doc_id flag db) (set_flag doc_id flag d) a ps
   = eval_atom sy db d a ps"
  by (cases a) (auto simp: toggle_archive_def set_flag_def split: list.splits)

lemma eval_where_toggle:
  "eval_where sy (toggle_archive doc_id flag db) (set_flag doc_id flag d) sql ps cur
   = eval_where sy db d sql ps cur"
proof (induction sy db d sql ps cur rule: eval_where.induct)
  case (1 sy db d ps cur)
  show ?case by simp
next
  case (2 sy db d a ts ps cur)
  then show ?case by (simp add: eval_atom_toggle)
next
  case (3 sy db d ts ps cur)
  then show ?case by simp
next
  case (4 sy db d ts ps cur)
  then show ?case by simp
qed

lemma insort_key_map:
  assumes "\<And>x. k (f x) = k x"
  shows "insort_key k (f x) (map f ys) = map f (insort_key k x ys)"
  by (induction ys) (simp_all add: assms)

lemma sort_key_map:
  assumes "\<And>x. k (f x) = k x"
  shows "sort_key k (map f xs) = map f (sort_key k xs)"
  by (induction xs) (simp_all add: insort_key_map [of k f, OF assms])

lemma order_map:
  assumes "\<And>x. created_at (f x) = created_at x"
  shows "order_by_created_at_desc (map f xs) = map f (order_by_created_at_desc xs)"
  unfolding order_by_created_at_desc_def
  by (simp add: sort_key_map [of created_at f, OF assms] rev_map)

lemma created_at_set_flag: "created_at (set_flag doc_id flag d) = created_at d"
  by (simp add: set_flag_def)

lemma joined_toggle:
  "joined (toggle_archive doc_id flag db) (set_flag doc_id flag d) = joined db d"
  by (simp add: joined_def toggle_archive_def set_flag_def)

lemma select_row_toggle:
  "select_row (toggle_archive doc_id flag db) (set_flag doc_id flag d)
   = (let r = select_row db d
      in if r_document_id r = doc_id then r\<lparr>r_archived := flag\<rparr> else r)"
  by (simp add: select_row_def joined_toggle Let_def) (simp add: set_flag_def)

lemma Documents_toggle:
  "Documents (toggle_archive doc_id flag db) = map (set_flag doc_id flag) (Documents db)"
  by (simp add: toggle_archive_def set_flag_def [abs_def])

lemma chunk_empty: "0 < n \<Longrightarrow> (take n (drop p xs) = []) = (length xs \<le> p)"
  by (simp add: take_eq_Nil)

lemma chunk_cat: "take n (drop p xs) @ drop (p + length (take n (drop p xs))) xs = drop p xs"
proof -
  have "drop (p + length (take n (drop p xs))) xs = drop (length (take n (drop p xs))) (drop p xs)"
    by (simp add: add.commute)
  also have "\<dots> = drop n (drop p xs)"
    by (simp add: min_def)
  finally show ?thesis by (simp only: append_take_drop_id)
qed

lemma read_eq: "read n f = (take n (drop (pos f) (content f)),
   f\<lparr>pos := pos f + length (take n (drop (pos f) (content f)))\<rparr>)"
  by (simp only: read_def Let_def)

lemma read_chunks_eq:
  "read_chunks f fed =
     (fed @ drop (pos f) (content f), f\<lparr>pos := max (pos f) (length (content f))\<rparr>)"
proof (induction f fed rule: read_chunks.induct)
  case (1 f fed)
  define chunk where "chunk = take 4096 (drop (pos f) (content f))"
  define f' where "f' = f\<lparr>pos := pos f + length chunk\<rparr>"
  have r: "read 4096 f = (chunk, f')"
    unfolding chunk_def f'_def by (rule read_eq)
  have unfold: "read_chunks f fed = (if chunk = [] then (fed, f') else read_chunks f' (fed @ chunk))"
    by (subst read_chunks.simps) (simp only: r prod.case)
  show ?case
  proof (cases "chunk = []")
    case True
    then have le: "length (content f) \<le> pos f"
      unfolding chunk_def using chunk_empty [of 4096 "pos f" "content f"] by simp
    have "f' = f" unfolding f'_def using True by simp
    with True le show ?thesis by (simp add: unfold max_def)
  next
    case False
    then have lt: "pos f < length (content f)"
      unfolding chunk_def using chunk_empty [of 4096 "pos f" "content f"] by simp
    have ih: "read_chunks f' (fed @ chunk) =
        ((fed @ chunk) @ drop (pos f') (content f'), f'\<lparr>pos := max (pos f') (length (content f'))\<rparr>)"
      using "1.IH" [OF r [symmetric] False] .
    have c: "content f' = content f" and p: "pos f' = pos f + length chunk"
      by (simp_all add: f'_def)
    have cat: "chunk @ drop (pos f + length chunk) (content f) = drop (pos f) (content f)"
      unfolding chunk_def by (rule chunk_cat)
    have ple: "pos f + length chunk \<le> length (content f)"
      unfolding chunk_def using lt by (simp only: length_take length_drop)
    have m: "max (pos f + length chunk) (length (content f)) = max (pos f) (length (content f))"
      using lt ple by (simp add: max_def)
    have "read_chunks f fed = read_chunks f' (fed @ chunk)"
      using False by (simp only: unfold if_False)
    also have "\<dots> = (fed @ drop (pos f) (content f), f'\<lparr>pos := max (pos f) (length (content f))\<rparr>)"
      by (simp only: ih m c p append_assoc cat)
    also have "f'\<lparr>pos := max (pos f) (length (content f))\<rparr> = f\<lparr>pos := max (pos f) (length (content f))\<rparr>"
      by (simp add: f'_def)
    finally show ?thesis .
  qed
qed

lemma compute_sha256_eq:
  "compute_sha256 e f = (sha256_hexdigest e (drop (pos f) (content f)), f\<lparr>pos := 0\<rparr>)"
  by (simp add: compute_sha256_def read_chunks_eq seek0_def)

lemma store_file_eq:
  "store_file e doc_id db f =
     (if \<not> can_open e (storage_path doc_id (name f)) then (Inl OSError, db)
      else (Inr (),
            db\<lparr>disk := (disk db)(storage_path doc_id (name f) \<mapsto> content f),
               Files := Files db @
                 [\<lparr>file_id = next_file_id db, file_document_id = doc_id,
                   filename = name f, filesize = length (content f),
                   mimetype = from_buffer e (take 1024 (content f)),
                   sha256 = sha256_hexdigest e (drop (pos f) (content f)),
                   local_path = storage_path doc_id (name f)\<rparr>]\<rparr>))"
  by (simp add: store_file_def compute_sha256_eq read_all_def read_eq seek0_def Let_def
      next_file_id_def)


lemma store_files_frame:
  "store_files e doc_id db fs = (r, db') \<Longrightarrow>
     Documents db' = Documents db \<and> Tags db' = Tags db
     \<and> take (length (Files db)) (Files db') = Files db
     \<and> length (Files db) \<le> length (Files db')"
proof (induction fs arbitrary: db)
  case Nil
  then show ?case by simp
next
  case (Cons f fs)
  show ?case
  proof (cases "can_open e (storage_path doc_id (name f))")
    case False
    with Cons.prems show ?thesis by (simp add: store_file_eq)
  next
    case True
    define db1 where "db1 = snd (store_file e doc_id db f)"
    have s: "store_file e doc_id db f = (Inr (), db1)"
      unfolding db1_def using True by (simp add: store_file_eq)
    have rest: "store_files e doc_id db1 fs = (r, db')"
      using Cons.prems by (simp add: s)
    have f1: "Files db1 = Files db @ [last (Files db1)]" and d1: "Documents db1 = Documents db"
      and t1: "Tags db1 = Tags db"
      unfolding db1_def using True by (simp_all add: store_file_eq)
    from Cons.IH [OF rest] have ih: "Documents db' = Documents db1" "Tags db' = Tags db1"
      "take (length (Files db1)) (Files db') = Files db1" "length (Files db1) \<le> length (Files db')"
      by simp_all
    have "take (length (Files db)) (Files db') = take (length (Files db)) (take (length (Files db1)) (Files db'))"
      using f1 by (metis le_add1 length_append min.absorb1 take_take)
    also have "\<dots> = Files db" using f1 by (simp add: ih(3)) (metis append_eq_conv_conj)
    finally have "take (length (Files db)) (Files db') = Files db" .
    moreover have "length (Files db) \<le> length (Files db')"
      using ih(4) f1 by (metis le_add1 le_trans length_append)
    ultimately show ?thesis using ih d1 t1 by simp
  qed
qed





lemma insert_tag_frame:
  "Documents (insert_tag doc_id db t) = Documents db \<and> Files (insert_tag doc_id db t) = Files db
   \<and> disk (insert_tag doc_id db t) = disk db"
  by (simp add: insert_tag_def)

lemma insert_tags_frame:
  "Documents (foldl (insert_tag doc_id) db ts) = Documents db
   \<and> Files (foldl (insert_tag doc_id) db ts) = Files db
   \<and> disk (foldl (insert_tag doc_id) db ts) = disk db"
  by (induction ts arbitrary: db) (simp_all add: insert_tag_frame)


lemma store_files_succeeds:
  "\<forall>f\<in>set fs. can_open e (storage_path doc_id (name f)) \<Longrightarrow>
   fst (store_files e doc_id db fs) = Inr ()"
  by (induction fs arbitrary: db) (simp_all add: store_file_eq)

lemma startswith_hd: "startswith u (c # p) \<Longrightarrow> u \<noteq> [] \<and> hd u = c"
  by (cases u) (simp_all add: startswith_def)

lemma kinds_exclusive:
  "startswith u ''tag:'' \<Longrightarrow> \<not> startswith u ''year:'' \<and> \<not> startswith u ''mime:'' \<and> \<not> startswith u ''-''"
  "startswith u ''year:'' \<Longrightarrow> \<not> startswith u ''tag:'' \<and> \<not> startswith u ''mime:'' \<and> \<not> startswith u ''-''"
  "startswith u ''mime:'' \<Longrightarrow> \<not> startswith u ''tag:'' \<and> \<not> startswith u ''year:'' \<and> \<not> startswith u ''-''"
  "startswith u ''-'' \<Longrightarrow> \<not> startswith u ''tag:'' \<and> \<not> startswith u ''year:'' \<and> \<not> startswith u ''mime:''"
  by (auto dest!: startswith_hd)

lemma classify_filter_token:
  assumes "is_filter_token t"
  shows "conditions (classify st t) = conditions st \<and> params (classify st t) = params st
     \<and> tags (classify st t) = tags st @ tag_vals [t]
     \<and> years (classify st t) = years st @ year_vals [t]
     \<and> mimes (classify st t) = mimes st @ mime_vals [t]
     \<and> excludes (classify st t) = excludes st @ excl_vals [t]"
proof -
  consider "startswith t ''tag:''" | "startswith t ''year:''" | "startswith t ''mime:''" | "startswith t ''-''"
    using assms by (auto simp: is_filter_token_def is_or_token_def)
  then show ?thesis
  proof cases
    case 1
    with kinds_exclusive(1) [OF 1] show ?thesis
      by (simp add: classify_def tag_vals_def year_vals_def mime_vals_def excl_vals_def)
  next
    case 2
    with kinds_exclusive(2) [OF 2] show ?thesis
      by (simp add: classify_def tag_vals_def year_vals_def mime_vals_def excl_vals_def)
  next
    case 3
    with kinds_exclusive(3) [OF 3] show ?thesis
      by (simp add: classify_def tag_vals_def year_vals_def mime_vals_def excl_vals_def)
  next
    case 4
    with kinds_exclusive(4) [OF 4] show ?thesis
      by (simp add: classify_def tag_vals_def year_vals_def mime_vals_def excl_vals_def)
  qed
qed

lemma vals_Cons:
  "tag_vals (t # ts) = tag_vals [t] @ tag_vals ts"
  "year_vals (t # ts) = year_vals [t] @ year_vals ts"
  "mime_vals (t # ts) = mime_vals [t] @ mime_vals ts"
  "excl_vals (t # ts) = excl_vals [t] @ excl_vals ts"
  by (simp_all add: tag_vals_def year_vals_def mime_vals_def excl_vals_def)

lemma foldl_classify_filter_tokens:
  assumes "\<forall>u\<in>set ts. is_filter_token u"
  shows "conditions (foldl classify st ts) = conditions st
     \<and> params (foldl classify st ts) = params st
     \<and> tags (foldl classify st ts) = tags st @ tag_vals ts
     \<and> years (foldl classify st ts) = years st @ year_vals ts
     \<and> mimes (foldl classify st ts) = mimes st @ mime_vals ts
     \<and> excludes (foldl classify st ts) = excludes st @ excl_vals ts"
  using assms
proof (induction ts arbitrary: st)
  case Nil
  show ?case by (simp add: tag_vals_def year_vals_def mime_vals_def excl_vals_def)
next
  case (Cons t ts)
  have t: "is_filter_token t" and ts: "\<forall>u\<in>set ts. is_filter_token u"
    using Cons.prems by simp_all
  note c = classify_filter_token [OF t, of st]
  note ih = Cons.IH [OF ts, of "classify st t"]
  show ?case
    by (simp only: foldl_Cons ih c append_assoc vals_Cons [of t ts])
qed

lemma execute_compile_state:
  assumes "conditions st = []" and "params st = []"
  shows "execute sy db (fst (compile_state st)) (snd (compile_state st))
         = outcome sy db (tags st) (years st) (mimes st) (excludes st)"
proof -
  consider "excludes st = []" | e where "excludes st = [e]"
    | e1 e2 es where "excludes st = e1 # e2 # es"
    by (metis neq_Nil_conv)
  then show ?thesis
  proof cases
    case 1
    then show ?thesis using assms
      by (simp add: compile_state_def execute_def outcome_def matches_def Let_def)
  next
    case 2
    then show ?thesis using assms
      by (simp add: compile_state_def execute_def outcome_def matches_def Let_def)
  next
    case 3
    then show ?thesis using assms
      by (simp add: compile_state_def execute_def outcome_def matches_def Let_def)
  qed
qed

lemma matches_cong:
  assumes "set T = set T'" and "set Y = set Y'" and "set M = set M'"
  shows "matches sy db d T Y M E = matches sy db d T' Y' M' E"
proof -
  have e: "(T = []) = (T' = [])" "(Y = []) = (Y' = [])" "(M = []) = (M' = [])"
    using assms by (metis set_empty)+
  have m: "set (map percent M) = set (map percent M')" using assms(3) by simp
  show ?thesis
    unfolding matches_def eval_atom.simps list_ex_iff e
    using assms(1,2) m by simp
qed

lemma outcome_cong:
  assumes "set T = set T'" and "set Y = set Y'" and "set M = set M'"
  shows "outcome sy db T Y M E = outcome sy db T' Y' M' E"
  unfolding outcome_def using matches_cong [OF assms] by simp

lemma vals_insert:
  assumes "t \<in> set (xs @ ys)"
  shows "set (tag_vals (xs @ t # ys)) = set (tag_vals (xs @ ys))"
    and "set (year_vals (xs @ t # ys)) = set (year_vals (xs @ ys))"
    and "set (mime_vals (xs @ t # ys)) = set (mime_vals (xs @ ys))"
  using assms by (auto simp: tag_vals_def year_vals_def mime_vals_def)

lemma excl_vals_insert:
  assumes "is_or_token t"
  shows "excl_vals (xs @ t # ys) = excl_vals (xs @ ys)"
proof -
  have "\<not> startswith t ''-''"
    using assms kinds_exclusive(4) [of t] by (auto simp: is_or_token_def)
  then show ?thesis by (simp add: excl_vals_def)
qed

lemma search_filter_tokens:
  assumes "\<forall>u\<in>set (tokenize q). is_filter_token u"
  shows "search_documents sy db q
         = outcome sy db (tag_vals (tokenize q)) (year_vals (tokenize q))
             (mime_vals (tokenize q)) (excl_vals (tokenize q))"
proof -
  define st where "st = foldl classify init_state (tokenize q)"
  note f = foldl_classify_filter_tokens [OF assms, of init_state, folded st_def]
  have c: "conditions st = []" and p: "params st = []"
    and v: "tags st = tag_vals (tokenize q)" "years st = year_vals (tokenize q)"
      "mimes st = mime_vals (tokenize q)" "excludes st = excl_vals (tokenize q)"
    using f by (simp_all add: init_state_def)
  have "search_documents sy db q = execute sy db (fst (compile_state st)) (snd (compile_state st))"
    by (simp add: search_documents_def parse_search_query_def st_def split: prod.splits)
  then show ?thesis
    by (simp only: execute_compile_state [OF c p] v)
qed

text \<open>
  The primary key of \<open>Documents\<close> holds in every state the program reaches: the empty
  tables satisfy it, and both operations that write keep it.
\<close>

lemma toggle_archive_keeps_primary_key:
  "primary_key_ok db \<Longrightarrow> primary_key_ok (toggle_archive doc_id flag db)"
proof -
  have "map document_id (map (set_flag doc_id flag) (Documents db)) = map document_id (Documents db)"
    by (simp add: set_flag_def)
  then show "primary_key_ok db \<Longrightarrow> primary_key_ok (toggle_archive doc_id flag db)"
    by (simp only: primary_key_ok_def Documents_toggle)
qed

lemma add_document_keeps_primary_key:
  assumes "primary_key_ok db"
  shows "primary_key_ok (snd (add_document e now1 now2 ttl nts tgs files db))"
proof (cases "list_ex (\<lambda>d. document_id d = md5_hexdigest e (ttl @ now1)) (Documents db)")
  case True
  then show ?thesis using assms by (simp add: add_document_def Let_def)
next
  case False
  define doc_id where "doc_id = md5_hexdigest e (ttl @ now1)"
  define db1 where "db1 = db\<lparr>Documents := Documents db @
              [\<lparr>document_id = doc_id, title = ttl, notes_col = nts,
                created_at = now2, archived = False\<rparr>]\<rparr>"
  obtain r db2 where s: "store_files e doc_id db1 files = (r, db2)"
    by (cases "store_files e doc_id db1 files")
  have d2: "Documents db2 = Documents db1" using store_files_frame [OF s] by simp
  have pk1: "primary_key_ok db1"
    using assms False by (auto simp: primary_key_ok_def db1_def doc_id_def list_ex_iff)
  have unf: "add_document e now1 now2 ttl nts tgs files db =
      (case r of Inl err \<Rightarrow> (Inl err, db\<lparr>disk := disk db2\<rparr>)
       | Inr u \<Rightarrow> (Inr doc_id, foldl (insert_tag doc_id) db2
              (if tgs \<noteq> [] then map strip (split_on CHR '','' tgs) else [])))"
    using False s unfolding add_document_def Let_def db1_def doc_id_def
    by (simp split: sum.splits)
  show ?thesis
  proof (cases r)
    case (Inl err)
    then show ?thesis using assms by (simp add: unf primary_key_ok_def)
  next
    case (Inr u)
    then show ?thesis using pk1 by (simp add: unf primary_key_ok_def insert_tags_frame d2)
  qed
qed

lemma visible_results_hides_archived:
  "visible_results True rs = rs
   \<and> set (visible_results False rs) = {r \<in> set rs. \<not> r_archived r}"
  by (auto simp: visible_results_def)

lemmas example_defs = example_db_def doc_a_def doc_b_def doc_c_def

section \<open>The claims\<close>

text \<open>
  C3. A query whose tokens are all of the form \<open>tag:<value>\<close> (one or more of them) raises
  no error and returns exactly the documents that carry at least one of the listed values
  in \<open>Tags\<close>, each once, most recently created first: the union, not the intersection.
\<close>

theorem search_tags_union:
  assumes "tokenize query = map (\<lambda>v. ''tag:'' @ v) vs" and "vs \<noteq> []"
  shows "search_documents strftime_Y db query =
           Inr (map (select_row db)
                  (order_by_created_at_desc
                     (filter (\<lambda>d. \<exists>t \<in> set (Tags db).
                                 tag_document_id t = document_id d \<and> tag t \<in> set vs)
                        (Documents db))))"
proof -
  have ev: "\<And>d. eval_where strftime_Y db d
                   [Atom True_1eq1, Kw_AND, Atom (Tag_In (length vs))] vs True
        = (\<exists>t \<in> set (Tags db). tag_document_id t = document_id d \<and> tag t \<in> set vs)"
    by (auto simp: list_ex_iff)
  show ?thesis
    by (simp add: search_documents_def parse_tags_only [OF assms] execute_def ev
        del: eval_where.simps)
qed

theorem search_tags_union_witness:
  "tokenize ''tag:work tag:personal'' = map (\<lambda>v. ''tag:'' @ v) [''work'', ''personal'']
   \<and> [''work'', ''personal''] \<noteq> []
   \<and> map_sum id (map r_document_id)
        (search_documents year_prefix example_db ''tag:work tag:personal'') = Inr [''b2'', ''a1'']"
proof -
  have h: "tokenize ''tag:work tag:personal'' = map (\<lambda>v. ''tag:'' @ v) [''work'', ''personal'']"
    by (simp add: tokenize_def strip_def isspace_def)
  have n: "[''work'', ''personal''] \<noteq> ([] :: string list)" by simp
  show ?thesis
    using h search_tags_union [OF h n, of year_prefix example_db]
    by (simp add: example_defs order_by_created_at_desc_def select_row_def)
qed

text \<open>
  C4. The empty query raises no error and returns one row for every stored document,
  ordered by \<open>created_at\<close> descending. (The compiled statement carries the condition
  \<open>title LIKE '%%' OR notes LIKE '%%'\<close> for the one empty token; every text satisfies it.)
\<close>

theorem search_empty_query:
  "search_documents strftime_Y db '''' =
     Inr (map (select_row db) (order_by_created_at_desc (Documents db)))
   \<and> mset (order_by_created_at_desc (Documents db)) = mset (Documents db)
   \<and> sorted_wrt (\<lambda>a b. created_at b \<le> created_at a) (order_by_created_at_desc (Documents db))"
proof -
  have "\<And>d. eval_where strftime_Y db d
               [Atom True_1eq1, Kw_AND, Atom Literal] [''%%'', ''%%''] True"
    using like_percent_percent by simp
  then have "search_documents strftime_Y db '''' =
     Inr (map (select_row db) (order_by_created_at_desc (Documents db)))"
    by (simp add: search_documents_def parse_empty execute_def)
  then show ?thesis
    using sorted_desc mset_order by blast
qed

theorem search_empty_query_witness:
  "map_sum id (map r_document_id) (search_documents year_prefix example_db '''')
   = Inr [''b2'', ''a1'', ''c3'']"
  using search_empty_query [of year_prefix example_db]
  by (simp add: example_defs order_by_created_at_desc_def select_row_def)

text \<open>
  C6. For a document of the table, whatever its archived value: \<open>toggle_archive\<close> with the
  opposite flag and then with the original flag gives back the state it started from.
  For every id and flag, \<open>toggle_archive\<close> changes nothing in \<open>Files\<close>, in \<open>Tags\<close> or on
  disk, changes no column of \<open>Documents\<close> other than \<open>archived\<close>, and leaves the rows of
  other documents as they are.
\<close>

theorem toggle_archive_twice:
  assumes pk: "primary_key_ok db" and d: "d \<in> set (Documents db)"
  shows "toggle_archive (document_id d) (archived d)
           (toggle_archive (document_id d) (\<not> archived d) db) = db
       \<and> (\<forall>doc_id flag.
            Files (toggle_archive doc_id flag db) = Files db
          \<and> Tags (toggle_archive doc_id flag db) = Tags db
          \<and> disk (toggle_archive doc_id flag db) = disk db
          \<and> map (\<lambda>x. x\<lparr>archived := False\<rparr>) (Documents (toggle_archive doc_id flag db))
              = map (\<lambda>x. x\<lparr>archived := False\<rparr>) (Documents db)
          \<and> (\<forall>x \<in> set (Documents db). document_id x \<noteq> doc_id \<longrightarrow>
                x \<in> set (Documents (toggle_archive doc_id flag db))))"
proof -
  have same: "\<forall>x\<in>set (Documents db).
                document_id x = document_id d \<longrightarrow> archived x = archived d"
    using pk d distinct_same_id unfolding primary_key_ok_def by blast
  have restore: "toggle_archive (document_id d) (archived d)
           (toggle_archive (document_id d) (\<not> archived d) db) = db"
    unfolding toggle_archive_def using toggle_there_and_back [OF same] by simp
  have rest: "\<And>doc_id flag. Files (toggle_archive doc_id flag db) = Files db
          \<and> Tags (toggle_archive doc_id flag db) = Tags db
          \<and> disk (toggle_archive doc_id flag db) = disk db
          \<and> map (\<lambda>x. x\<lparr>archived := False\<rparr>) (Documents (toggle_archive doc_id flag db))
              = map (\<lambda>x. x\<lparr>archived := False\<rparr>) (Documents db)
          \<and> (\<forall>x \<in> set (Documents db). document_id x \<noteq> doc_id \<longrightarrow>
                x \<in> set (Documents (toggle_archive doc_id flag db)))"
    unfolding toggle_archive_def by (auto simp: toggle_map_erase intro!: image_eqI)
  from restore rest show ?thesis by blast
qed

theorem toggle_archive_twice_witness:
  "primary_key_ok example_db \<and> doc_b \<in> set (Documents example_db)
   \<and> archived doc_b
   \<and> Documents (toggle_archive ''b2'' False example_db) = [doc_a, doc_b\<lparr>archived := False\<rparr>, doc_c]
   \<and> toggle_archive ''b2'' True (toggle_archive ''b2'' False example_db) = example_db"
proof -
  have pk: "primary_key_ok example_db"
    by (simp add: primary_key_ok_def example_defs)
  have d: "doc_b \<in> set (Documents example_db)"
    by (simp add: example_defs)
  show ?thesis
    using pk d toggle_archive_twice [OF pk d]
    by (simp add: doc_b_def) (simp add: toggle_archive_def example_defs)
qed

text \<open>
  C7. The storage path is a function of the document id and the file name, and for two
  distinct document ids (hexadecimal MD5 digests, as \<open>add_document\<close> derives them) the
  paths differ, whatever the two file names are, equal ones included.
\<close>

theorem storage_paths_distinct:
  assumes "is_hexdigest d1" and "is_hexdigest d2" and "d1 \<noteq> d2"
  shows "storage_path d1 f1 \<noteq> storage_path d2 f2"
proof
  assume eq: "storage_path d1 f1 = storage_path d2 f2"
  have "d1 @ ''_'' @ f1 = d2 @ ''_'' @ f2"
    using eq hexdigest_head [OF assms(1)] hexdigest_head [OF assms(2)]
    by (simp add: storage_path_eq)
  moreover have "length d1 = length d2"
    using assms by (simp add: is_hexdigest_def)
  ultimately have "d1 = d2" by simp
  with assms(3) show False by simp
qed

theorem storage_paths_distinct_witness:
  "is_hexdigest ''d41d8cd98f00b204e9800998ecf8427e''
   \<and> is_hexdigest ''0cc175b9c0f1b6a831c399e269772661''
   \<and> ''d41d8cd98f00b204e9800998ecf8427e'' \<noteq> ''0cc175b9c0f1b6a831c399e269772661''
   \<and> storage_path ''d41d8cd98f00b204e9800998ecf8427e'' ''a.txt''
       \<noteq> storage_path ''0cc175b9c0f1b6a831c399e269772661'' ''a.txt''"
proof -
  have h1: "is_hexdigest ''d41d8cd98f00b204e9800998ecf8427e''"
    by (simp add: is_hexdigest_def)
  have h2: "is_hexdigest ''0cc175b9c0f1b6a831c399e269772661''"
    by (simp add: is_hexdigest_def)
  have ne: "''d41d8cd98f00b204e9800998ecf8427e'' \<noteq> ''0cc175b9c0f1b6a831c399e269772661''"
    by simp
  show ?thesis
    using h1 h2 ne storage_paths_distinct [OF h1 h2 ne, of "''a.txt''" "''a.txt''"]
    by blast
qed

text \<open>
  C9. \<open>search_documents\<close> does not look at the archived flag: after \<open>toggle_archive\<close> has
  set the flag of a document to either value, every query gives the same outcome as
  before (the same error, or the same rows in the same order), except that the rows of
  that document show the new flag.
\<close>

theorem search_ignores_archived:
  "search_documents strftime_Y (toggle_archive doc_id flag db) query =
     map_sum id (map (\<lambda>r. if r_document_id r = doc_id then r\<lparr>r_archived := flag\<rparr> else r))
       (search_documents strftime_Y db query)"
proof -
  obtain sql ps where p: "parse_search_query query = (sql, ps)"
    by (cases "parse_search_query query")
  have f: "filter (\<lambda>d. eval_where strftime_Y (toggle_archive doc_id flag db) d sql ps True)
             (map (set_flag doc_id flag) (Documents db))
         = map (set_flag doc_id flag)
             (filter (\<lambda>d. eval_where strftime_Y db d sql ps True) (Documents db))"
    by (simp add: filter_map o_def eval_where_toggle)
  have m: "\<And>ds. map (select_row (toggle_archive doc_id flag db)) (map (set_flag doc_id flag) ds)
       = map (\<lambda>r. if r_document_id r = doc_id then r\<lparr>r_archived := flag\<rparr> else r)
           (map (select_row db) ds)"
    by (simp add: select_row_toggle Let_def)
  show ?thesis
    unfolding search_documents_def p execute_def
    by (simp add: Documents_toggle f
        order_map [of "set_flag doc_id flag", OF created_at_set_flag] m del: map_map)
qed

theorem search_ignores_archived_witness:
  "map_sum id (map (\<lambda>r. (r_document_id r, r_archived r)))
     (search_documents year_prefix (toggle_archive ''a1'' True example_db) ''tag:work'')
   = Inr [(''a1'', True)]
   \<and> map_sum id (map (\<lambda>r. (r_document_id r, r_archived r)))
     (search_documents year_prefix example_db ''tag:work'') = Inr [(''a1'', False)]"
proof -
  have e: "search_documents year_prefix example_db ''tag:work''
      = Inr [select_row example_db doc_a]"
    by (simp add: search_documents_def parse_search_query_def tokenize_def strip_def isspace_def
        classify_def init_state_def startswith_def compile_state_def execute_def
        order_by_created_at_desc_def example_defs)
  show ?thesis
    using search_ignores_archived [of year_prefix "''a1''" True example_db "''tag:work''"]
    by (simp add: e) (simp add: select_row_def doc_a_def)
qed

text \<open>
  C10. For a document id that is not in \<open>Documents\<close> and either flag, \<open>toggle_archive\<close>
  returns the state unchanged; it has no error result.
\<close>

theorem toggle_archive_unknown_id:
  assumes "doc_id \<notin> document_id ` set (Documents db)"
  shows "toggle_archive doc_id flag db = db"
proof -
  have "map (\<lambda>d. if document_id d = doc_id then d\<lparr>archived := flag\<rparr> else d) (Documents db)
        = Documents db"
    using assms by (intro map_idI) auto
  then show ?thesis
    by (simp add: toggle_archive_def)
qed

theorem toggle_archive_unknown_id_witness:
  "''zz'' \<notin> document_id ` set (Documents example_db)
   \<and> toggle_archive ''zz'' True example_db = example_db
   \<and> toggle_archive ''zz'' False example_db = example_db"
proof -
  have h: "''zz'' \<notin> document_id ` set (Documents example_db)"
    by (simp add: example_defs)
  show ?thesis
    using h toggle_archive_unknown_id [OF h, of True] toggle_archive_unknown_id [OF h, of False]
    by simp
qed




text \<open>
  C2. \<open>add_document\<close> does not validate its input and has no validation error: for an
  empty title and an empty list of files it inserts the row into \<open>Documents\<close> and returns
  the new id.
\<close>

theorem add_document_accepts_empty_title:
  "fst (add_document example_env ''2024-01-01 10:00:00.000001'' ''2024-01-01 10:00:00.000002''
          '''' '''' '''' [] empty_db) = Inr ''d41d8cd98f00b204e9800998ecf8427e''
   \<and> Documents (snd (add_document example_env ''2024-01-01 10:00:00.000001''
          ''2024-01-01 10:00:00.000002'' '''' '''' '''' [] empty_db))
     = [\<lparr>document_id = ''d41d8cd98f00b204e9800998ecf8427e'', title = '''', notes_col = '''',
         created_at = ''2024-01-01 10:00:00.000002'', archived = False\<rparr>]"
  by (simp add: add_document_def example_env_def empty_db_def Let_def)

text \<open>
  C2, as amended. The check is in the form of the Add Document page: when the title is
  empty or no file was uploaded, the form does not call \<open>add_document\<close>, raises nothing and
  leaves the state as it is. \<open>add_document\<close> itself accepts every title and every list of
  files: when the derived id is not in \<open>Documents\<close> yet and every storage path can be
  opened, it returns the id and has inserted the row into \<open>Documents\<close>.
\<close>

theorem validation_is_in_the_form:
  "(ttl = [] \<or> files = [] \<longrightarrow>
      add_form e now1 now2 submit ttl nts tgs files db = (None, db))
   \<and> (\<not> list_ex (\<lambda>d. document_id d = md5_hexdigest e (ttl @ now1)) (Documents db)
      \<and> (\<forall>f\<in>set files. can_open e (storage_path (md5_hexdigest e (ttl @ now1)) (name f)))
      \<longrightarrow> fst (add_document e now1 now2 ttl nts tgs files db)
            = Inr (md5_hexdigest e (ttl @ now1))
        \<and> Documents (snd (add_document e now1 now2 ttl nts tgs files db))
            = Documents db @
              [\<lparr>document_id = md5_hexdigest e (ttl @ now1), title = ttl, notes_col = nts,
                created_at = now2, archived = False\<rparr>])"
proof (intro conjI impI)
  assume "ttl = [] \<or> files = []"
  then show "add_form e now1 now2 submit ttl nts tgs files db = (None, db)"
    by (auto simp: add_form_def)
next
  assume a: "\<not> list_ex (\<lambda>d. document_id d = md5_hexdigest e (ttl @ now1)) (Documents db)
      \<and> (\<forall>f\<in>set files. can_open e (storage_path (md5_hexdigest e (ttl @ now1)) (name f)))"
  define doc_id where "doc_id = md5_hexdigest e (ttl @ now1)"
  define db1 where "db1 = db\<lparr>Documents := Documents db @
              [\<lparr>document_id = doc_id, title = ttl, notes_col = nts,
                created_at = now2, archived = False\<rparr>]\<rparr>"
  obtain r db2 where s: "store_files e doc_id db1 files = (r, db2)"
    by (cases "store_files e doc_id db1 files")
  have "fst (store_files e doc_id db1 files) = Inr ()"
    using a store_files_succeeds unfolding doc_id_def by blast
  with s have r: "r = Inr ()" by simp
  have d2: "Documents db2 = Documents db1" using store_files_frame [OF s] by simp
  have unf: "add_document e now1 now2 ttl nts tgs files db =
      (Inr doc_id, foldl (insert_tag doc_id) db2
              (if tgs \<noteq> [] then map strip (split_on CHR '','' tgs) else []))"
    using a s r unfolding add_document_def Let_def db1_def doc_id_def by simp
  show "fst (add_document e now1 now2 ttl nts tgs files db) = Inr (md5_hexdigest e (ttl @ now1))"
    by (simp add: unf doc_id_def)
  show "Documents (snd (add_document e now1 now2 ttl nts tgs files db))
            = Documents db @
              [\<lparr>document_id = md5_hexdigest e (ttl @ now1), title = ttl, notes_col = nts,
                created_at = now2, archived = False\<rparr>]"
    by (simp add: unf insert_tags_frame d2) (simp add: db1_def doc_id_def)
qed

theorem validation_is_in_the_form_witness:
  "('''' = ([] :: string) \<or> [up1] = [])
   \<and> add_form example_env ''2024-01-01 10:00:00.000001'' ''2024-01-01 10:00:00.000002''
        True '''' ''N'' ''x'' [up1] empty_db = (None, empty_db)
   \<and> \<not> list_ex (\<lambda>d. document_id d = md5_hexdigest example_env ('''' @ ''2024-01-01 10:00:00.000001''))
          (Documents empty_db)
   \<and> can_open example_env
         (storage_path (md5_hexdigest example_env ('''' @ ''2024-01-01 10:00:00.000001''))
            (name up1))
   \<and> fst (add_document example_env ''2024-01-01 10:00:00.000001'' ''2024-01-01 10:00:00.000002''
            '''' ''N'' ''x'' [up1] empty_db) = Inr ''d41d8cd98f00b204e9800998ecf8427e''"
  using validation_is_in_the_form [of "''''" "[up1]" example_env "''2024-01-01 10:00:00.000001''"
      "''2024-01-01 10:00:00.000002''" True "''N''" "''x''" empty_db]
  by (simp add: example_env_def empty_db_def)

text \<open>
  C1. The claim: every document that \<open>search_documents\<close> returns for a query with
  exclusion tokens has none of the excluded values in its title or notes, and each of
  several exclusion tokens is enforced. The code does not do that. The parameters of a
  literal term are put in front of all others, while its placeholders come last in the
  statement: in \<open>x -draft\<close> the exclusion is applied to \<open>x\<close> and the document titled
  \<open>draft\<close> is returned. With two exclusion tokens the statement has two placeholders for
  four parameters, and executing it raises.
\<close>

theorem exclusion_not_enforced:
  "map_sum id (map r_title) (search_documents year_prefix example_db ''x -draft'')
     = Inr [''draft'']
   \<and> search_documents year_prefix example_db ''-draft -final'' = Inl ProgrammingError"
  by (simp add: search_documents_def parse_search_query_def tokenize_def strip_def isspace_def
      classify_def init_state_def startswith_def compile_state_def percent_def execute_def
      order_by_created_at_desc_def select_row_def ascii_lower_def example_defs)

text \<open>
  C5. Repeating a literal term changes the outcome: \<open>Report\<close> returns a document, and
  \<open>Report Report\<close> compiles to two conditions with no operator between them, which the
  engine rejects.
\<close>

theorem repeated_literal_differs:
  "map_sum id (map r_document_id) (search_documents year_prefix example_db ''Report'')
     = Inr [''b2'']
   \<and> search_documents year_prefix example_db ''Report Report'' = Inl OperationalError"
  by (simp add: search_documents_def parse_search_query_def tokenize_def strip_def isspace_def
      classify_def init_state_def startswith_def compile_state_def percent_def execute_def
      order_by_created_at_desc_def select_row_def ascii_lower_def example_defs)

text \<open>
  C5, as amended. In a query whose tokens are all \<open>tag:\<close>, \<open>year:\<close>, \<open>mime:\<close> or exclusion
  tokens, writing a \<open>tag:\<close>, \<open>year:\<close> or \<open>mime:\<close> token of the query once more, at any
  place, gives the same outcome of \<open>search_documents\<close> (the same rows in the same order, or
  the same error).
\<close>

theorem repeated_or_token:
  assumes "tokenize q = xs @ ys" and "tokenize q' = xs @ t # ys"
    and "t \<in> set (xs @ ys)" and "is_or_token t"
    and "\<forall>u\<in>set (xs @ ys). is_filter_token u"
  shows "search_documents strftime_Y db q' = search_documents strftime_Y db q"
proof -
  have ft: "is_filter_token t" using assms(4) by (simp add: is_filter_token_def)
  have a: "\<forall>u\<in>set (tokenize q). is_filter_token u"
    using assms(1,5) by simp
  have b: "\<forall>u\<in>set (tokenize q'). is_filter_token u"
    using assms(2,5) ft by auto
  show ?thesis
    unfolding search_filter_tokens [OF a] search_filter_tokens [OF b] assms(1,2)
      excl_vals_insert [OF assms(4)]
    by (rule outcome_cong) (rule vals_insert [OF assms(3)])+
qed

theorem repeated_or_token_witness:
  "tokenize ''tag:work -zzz year:2023'' = [''tag:work'', ''-zzz''] @ [''year:2023'']
   \<and> tokenize ''tag:work -zzz tag:work year:2023''
       = [''tag:work'', ''-zzz''] @ ''tag:work'' # [''year:2023'']
   \<and> ''tag:work'' \<in> set ([''tag:work'', ''-zzz''] @ [''year:2023''])
   \<and> is_or_token ''tag:work''
   \<and> list_all is_filter_token ([''tag:work'', ''-zzz''] @ [''year:2023''])
   \<and> search_documents year_prefix example_db ''tag:work -zzz tag:work year:2023''
       = search_documents year_prefix example_db ''tag:work -zzz year:2023''
   \<and> map_sum id (map r_document_id)
         (search_documents year_prefix example_db ''tag:work -zzz year:2023'') = Inr [''a1'']"
proof -
  have h1: "tokenize ''tag:work -zzz year:2023'' = [''tag:work'', ''-zzz''] @ [''year:2023'']"
    by (simp add: tokenize_def strip_def isspace_def)
  have h2: "tokenize ''tag:work -zzz tag:work year:2023''
       = [''tag:work'', ''-zzz''] @ ''tag:work'' # [''year:2023'']"
    by (simp add: tokenize_def strip_def isspace_def)
  have h3: "''tag:work'' \<in> set ([''tag:work'', ''-zzz''] @ [''year:2023''])"
    by simp
  have h4: "is_or_token ''tag:work''"
    by (simp add: is_or_token_def startswith_def)
  have h5: "\<forall>u\<in>set ([''tag:work'', ''-zzz''] @ [''year:2023'']). is_filter_token u"
    by (simp add: is_filter_token_def is_or_token_def startswith_def)
  have h5': "list_all is_filter_token ([''tag:work'', ''-zzz''] @ [''year:2023''])"
    using h5 by (simp only: list_all_iff)
  have same: "search_documents year_prefix example_db ''tag:work -zzz tag:work year:2023''
       = search_documents year_prefix example_db ''tag:work -zzz year:2023''"
    by (rule repeated_or_token [OF h1 h2 h3 h4 h5])
  have v: "map_sum id (map r_document_id)
         (search_documents year_prefix example_db ''tag:work -zzz year:2023'') = Inr [''a1'']"
    by (simp add: search_documents_def parse_search_query_def h1 classify_def init_state_def
        startswith_def compile_state_def percent_def execute_def order_by_created_at_desc_def
        select_row_def ascii_lower_def example_defs year_prefix_def)
  from h1 h2 h3 h4 h5' same v show ?thesis
    by blast
qed

end
